theory Spec2Isabelle
  imports Main "HOL-Library.Sublist"
begin

section \<open>JavaScript values used by the serial-port session\<close>

text \<open>
  The session class \<open>Serialport\<close> of \<open>webview-src/index.ts\<close> is embedded with explicit
  state passing. Numbers are integers (timeouts, sizes, baud rates and byte values are
  integral in every call the class makes); \<open>undefined\<close> is \<open>None\<close>. A rejected promise
  or a thrown exception is the left summand of the result.

  Every \<open>async\<close> method is embedded as it runs when no other call on the same session
  is interleaved at its \<open>await\<close> points: calls that overlap are, by the design of the
  class, the caller's responsibility and are not part of the embedding.
\<close>

datatype err =
    Str string                \<comment> \<open>a plain string, as the local rejections are\<close>
  | Obj int string            \<comment> \<open>an \<open>InvokeResult\<close> object \<open>{code, message}\<close>\<close>
  | Exn string string         \<comment> \<open>an \<open>Error\<close> object: its name and message\<close>

definition to_string :: "err \<Rightarrow> string" where
  \<comment> \<open>what \<open>'...' + error\<close> appends\<close>
  "to_string e = (case e of
      Str s \<Rightarrow> s
    | Obj c m \<Rightarrow> ''[object Object]''
    | Exn n m \<Rightarrow> n @ '': '' @ m)"

datatype jsval = Undefined | Num int | StrList "string list"

definition truthy_str :: "string option \<Rightarrow> bool" where
  "truthy_str x = (case x of None \<Rightarrow> False | Some s \<Rightarrow> s \<noteq> [])"

definition truthy_num :: "int option \<Rightarrow> bool" where
  "truthy_num x = (case x of None \<Rightarrow> False | Some n \<Rightarrow> n \<noteq> 0)"

definition or_num :: "int option \<Rightarrow> int \<Rightarrow> int" where
  \<comment> \<open>\<open>a || b\<close> on an optional number\<close>
  "or_num a b = (case a of None \<Rightarrow> b | Some n \<Rightarrow> if n \<noteq> 0 then n else b)"

definition or_str :: "string option \<Rightarrow> string \<Rightarrow> string" where
  \<comment> \<open>\<open>a || b\<close> on an optional string\<close>
  "or_str a b = (case a of None \<Rightarrow> b | Some s \<Rightarrow> if s \<noteq> [] then s else b)"

definition str_of_path :: "string option \<Rightarrow> string" where
  \<comment> \<open>the path as string concatenation and template literals render it\<close>
  "str_of_path p = (case p of None \<Rightarrow> ''undefined'' | Some s \<Rightarrow> s)"

definition Uint8Array :: "int list \<Rightarrow> int list" where
  \<comment> \<open>\<open>new Uint8Array(xs)\<close>: every element is reduced modulo 256\<close>
  "Uint8Array xs = map (\<lambda>x. x mod 256) xs"

section \<open>The data model\<close>

datatype flow_control = Software | Hardware

datatype parity_mode = Odd | Even

record SerialportOptions =
  path :: "string option"
  baudRate :: "int option"
  encoding :: "string option"
  dataBits :: "int option"
  flowControl :: "flow_control option"
  parity :: "parity_mode option"
  stopBits :: "int option"
  timeout :: "int option"
  size_f :: "int option"

record Options =
  o_path :: "string option"
  o_baudRate :: "int option"
  o_dataBits :: int
  o_flowControl :: "flow_control option"
  o_parity :: "parity_mode option"
  o_stopBits :: int
  o_timeout :: int

record ReadOptions =
  r_timeout :: "int option"
  r_size :: "int option"

record Serialport =
  isOpen :: bool
  unListen :: "nat option"     \<comment> \<open>the unlisten function, named by its subscription\<close>
  s_encoding :: string
  options :: Options
  s_size :: int

datatype bin_value = U8 "int list" | Arr "int list" | NotBytes

section \<open>The command channel and the event feed\<close>

datatype command =
    AvailablePorts
  | ForceClose string
  | CloseAll
  | Open "string option" "int option" int "flow_control option" "parity_mode option" int int
  | Close "string option"
  | Read "string option" int int
  | CancelRead "string option"
  | Write string "string option"
  | WriteBinary "int list" "string option"

datatype js_data = Text string | Bytes "int list"

datatype event =
    Invoke command             \<comment> \<open>a call of \<open>invoke\<close>\<close>
  | Listen string              \<comment> \<open>a call of \<open>appWindow.listen\<close> on a channel\<close>
  | Unlisten nat               \<comment> \<open>a call of an unlisten function\<close>
  | Callback nat js_data       \<comment> \<open>the caller's callback of a subscription is called\<close>
  | ConsoleError err           \<comment> \<open>\<open>console.error\<close>\<close>

record listener =
  l_id :: nat
  l_channel :: string
  l_fn :: "js_data \<Rightarrow> err option"   \<comment> \<open>the callback: \<open>Some e\<close> when it throws \<open>e\<close>\<close>
  l_isDecode :: bool

record world =
  trace :: "event list"        \<comment> \<open>every call that left the session, in order\<close>
  subs :: "listener list"      \<comment> \<open>the registrations the event feed holds\<close>
  next_sub :: nat

text \<open>
  The collaborators are outside the repository, so their answers are parameters: each
  answer may depend on everything that was issued before.
\<close>

record env =
  invoke_reply :: "event list \<Rightarrow> command \<Rightarrow> err + jsval"
  listen_reply :: "event list \<Rightarrow> string \<Rightarrow> err option"
  unlisten_reply :: "event list \<Rightarrow> nat \<Rightarrow> err option"
  decoder :: "string \<Rightarrow> int list \<Rightarrow> err + string"

type_synonym 'a outcome = "(err + 'a) \<times> Serialport \<times> world"

definition invoke :: "env \<Rightarrow> command \<Rightarrow> world \<Rightarrow> (err + jsval) \<times> world" where
  "invoke E c w = (invoke_reply E (trace w) c, w\<lparr>trace := trace w @ [Invoke c]\<rparr>)"

definition appWindow_listen ::
  "env \<Rightarrow> string \<Rightarrow> (js_data \<Rightarrow> err option) \<Rightarrow> bool \<Rightarrow> world \<Rightarrow> (err + nat) \<times> world" where
  "appWindow_listen E ch fn isDecode w =
     (let w1 = w\<lparr>trace := trace w @ [Listen ch]\<rparr> in
      case listen_reply E (trace w) ch of
        Some e \<Rightarrow> (Inl e, w1)
      | None \<Rightarrow>
          (Inr (next_sub w),
           w1\<lparr>subs := subs w @
                 [\<lparr>l_id = next_sub w, l_channel = ch, l_fn = fn, l_isDecode = isDecode\<rparr>],
               next_sub := Suc (next_sub w)\<rparr>))"

definition call_unlisten :: "env \<Rightarrow> nat \<Rightarrow> world \<Rightarrow> (err + unit) \<times> world" where
  "call_unlisten E i w =
     (let w1 = w\<lparr>trace := trace w @ [Unlisten i]\<rparr> in
      case unlisten_reply E (trace w) i of
        Some e \<Rightarrow> (Inl e, w1)
      | None \<Rightarrow> (Inr (), w1\<lparr>subs := filter (\<lambda>l. l_id l \<noteq> i) (subs w)\<rparr>))"

section \<open>The session\<close>

definition constructor :: "SerialportOptions \<Rightarrow> Serialport" where
  "constructor opts =
     \<lparr>isOpen = False,
      unListen = None,
      s_encoding = or_str (encoding opts) ''utf-8'',
      options =
        \<lparr>o_path = path opts,
         o_baudRate = baudRate opts,
         o_dataBits = or_num (dataBits opts) 8,
         o_flowControl = flowControl opts,
         o_parity = parity opts,
         o_stopBits = or_num (stopBits opts) 2,
         o_timeout = or_num (timeout opts) 200\<rparr>,
      s_size = or_num (size_f opts) 1024\<rparr>"

definition available_ports :: "env \<Rightarrow> world \<Rightarrow> (err + jsval) \<times> world" where
  "available_ports E w = invoke E AvailablePorts w"

definition forceClose :: "env \<Rightarrow> string \<Rightarrow> world \<Rightarrow> (err + jsval) \<times> world" where
  "forceClose E p w = invoke E (ForceClose p) w"

definition closeAll :: "env \<Rightarrow> world \<Rightarrow> (err + jsval) \<times> world" where
  "closeAll E w = invoke E CloseAll w"

definition cancelListen :: "env \<Rightarrow> Serialport \<Rightarrow> world \<Rightarrow> jsval outcome" where
  "cancelListen E s w =
     (case unListen s of
        None \<Rightarrow> (Inr Undefined, s, w)
      | Some i \<Rightarrow>
          (case call_unlisten E i w of
             (Inl e, w1) \<Rightarrow> (Inl (Str (''Error cancelling listen: '' @ to_string e)), s, w1)
           | (Inr u, w1) \<Rightarrow> (Inr Undefined, s\<lparr>unListen := None\<rparr>, w1)))"

definition cancelRead :: "env \<Rightarrow> Serialport \<Rightarrow> world \<Rightarrow> jsval outcome" where
  "cancelRead E s w =
     (case invoke E (CancelRead (o_path (options s))) w of
        (Inl e, w1) \<Rightarrow> (Inl e, s, w1)
      | (Inr v, w1) \<Rightarrow> (Inr v, s, w1))"

definition close :: "env \<Rightarrow> Serialport \<Rightarrow> world \<Rightarrow> jsval outcome" where
  "close E s w =
     (if \<not> isOpen s then (Inr Undefined, s, w)
      else case cancelRead E s w of
        (Inl e, s1, w1) \<Rightarrow> (Inl e, s1, w1)
      | (Inr u, s1, w1) \<Rightarrow>
          (case invoke E (Close (o_path (options s1))) w1 of
             (Inl e, w2) \<Rightarrow> (Inl e, s1, w2)
           | (Inr res, w2) \<Rightarrow>
               (case cancelListen E s1 w2 of
                  (Inl e, s3, w3) \<Rightarrow> (Inl e, s3, w3)
                | (Inr u', s3, w3) \<Rightarrow> (Inr res, s3\<lparr>isOpen := False\<rparr>, w3))))"

definition listen ::
  "env \<Rightarrow> (js_data \<Rightarrow> err option) \<Rightarrow> bool \<Rightarrow> Serialport \<Rightarrow> world \<Rightarrow> jsval outcome" where
  "listen E fn isDecode s w =
     (case cancelListen E s w of
        (Inl e, s1, w1) \<Rightarrow> (Inl (Str (''Error to listen: '' @ to_string e)), s1, w1)
      | (Inr u, s1, w1) \<Rightarrow>
          (let readEvent = ''plugin-serialport-read-'' @ str_of_path (o_path (options s1)) in
           case appWindow_listen E readEvent fn isDecode w1 of
             (Inl e, w2) \<Rightarrow> (Inl (Str (''Error to listen: '' @ to_string e)), s1, w2)
           | (Inr i, w2) \<Rightarrow> (Inr Undefined, s1\<lparr>unListen := Some i\<rparr>, w2)))"

definition "open" :: "env \<Rightarrow> Serialport \<Rightarrow> world \<Rightarrow> jsval outcome" where
  "open E s w =
     (if \<not> truthy_str (o_path (options s)) then (Inl (Str ''Path cannot be empty!''), s, w)
      else if \<not> truthy_num (o_baudRate (options s))
        then (Inl (Str ''Baudrate cannot be empty!''), s, w)
      else if isOpen s then (Inr Undefined, s, w)
      else case invoke E
             (Open (o_path (options s)) (o_baudRate (options s)) (o_dataBits (options s))
                (o_flowControl (options s)) (o_parity (options s)) (o_stopBits (options s))
                (o_timeout (options s))) w of
        (Inl e, w1) \<Rightarrow> (Inl e, s, w1)
      | (Inr res, w1) \<Rightarrow> (Inr res, s\<lparr>isOpen := True\<rparr>, w1))"

definition read_timeout :: "ReadOptions option \<Rightarrow> int option" where
  \<comment> \<open>\<open>options?.timeout\<close>\<close>
  "read_timeout ro = (case ro of None \<Rightarrow> None | Some r \<Rightarrow> r_timeout r)"

definition read_size :: "ReadOptions option \<Rightarrow> int option" where
  \<comment> \<open>\<open>options?.size\<close>\<close>
  "read_size ro = (case ro of None \<Rightarrow> None | Some r \<Rightarrow> r_size r)"

definition read :: "env \<Rightarrow> ReadOptions option \<Rightarrow> Serialport \<Rightarrow> world \<Rightarrow> jsval outcome" where
  "read E ro s w =
     (case invoke E
             (Read (o_path (options s))
                (or_num (read_timeout ro) (o_timeout (options s)))
                (or_num (read_size ro) (s_size s))) w of
        (Inl e, w1) \<Rightarrow> (Inl e, s, w1)
      | (Inr v, w1) \<Rightarrow> (Inr v, s, w1))"

definition set_path :: "string option \<Rightarrow> Serialport \<Rightarrow> Serialport" where
  \<comment> \<open>\<open>this.options.path = value\<close>\<close>
  "set_path v s = s\<lparr>options := (options s)\<lparr>o_path := v\<rparr>\<rparr>"

definition set_baudRate :: "int option \<Rightarrow> Serialport \<Rightarrow> Serialport" where
  \<comment> \<open>\<open>this.options.baudRate = value\<close>\<close>
  "set_baudRate v s = s\<lparr>options := (options s)\<lparr>o_baudRate := v\<rparr>\<rparr>"

definition change ::
  "env \<Rightarrow> string option \<Rightarrow> int option \<Rightarrow> Serialport \<Rightarrow> world \<Rightarrow> jsval outcome" where
  "change E p b s w =
     (let isOpened = isOpen s in
      case (if isOpen s then close E s w else (Inr Undefined, s, w)) of
        (Inl e, s1, w1) \<Rightarrow> (Inl e, s1, w1)
      | (Inr u, s1, w1) \<Rightarrow>
          (let s2 = (if truthy_str p then set_path p s1 else s1);
               s3 = (if truthy_num b then set_baudRate b s2 else s2)
           in if isOpened then
                (case open E s3 w1 of
                   (Inl e, s4, w4) \<Rightarrow> (Inl e, s4, w4)
                 | (Inr u', s4, w4) \<Rightarrow> (Inr Undefined, s4, w4))
              else (Inr Undefined, s3, w1)))"

definition setBaudRate :: "env \<Rightarrow> int option \<Rightarrow> Serialport \<Rightarrow> world \<Rightarrow> jsval outcome" where
  "setBaudRate E v s w =
     (let isOpened = isOpen s in
      case (if isOpen s then close E s w else (Inr Undefined, s, w)) of
        (Inl e, s1, w1) \<Rightarrow> (Inl e, s1, w1)
      | (Inr u, s1, w1) \<Rightarrow>
          (let s2 = set_baudRate v s1
           in if isOpened then
                (case open E s2 w1 of
                   (Inl e, s4, w4) \<Rightarrow> (Inl e, s4, w4)
                 | (Inr u', s4, w4) \<Rightarrow> (Inr Undefined, s4, w4))
              else (Inr Undefined, s2, w1)))"

definition setPath :: "env \<Rightarrow> string option \<Rightarrow> Serialport \<Rightarrow> world \<Rightarrow> jsval outcome" where
  "setPath E v s w =
     (let isOpened = isOpen s in
      case (if isOpen s then close E s w else (Inr Undefined, s, w)) of
        (Inl e, s1, w1) \<Rightarrow> (Inl e, s1, w1)
      | (Inr u, s1, w1) \<Rightarrow>
          (let s2 = set_path v s1
           in if isOpened then
                (case open E s2 w1 of
                   (Inl e, s4, w4) \<Rightarrow> (Inl e, s4, w4)
                 | (Inr u', s4, w4) \<Rightarrow> (Inr Undefined, s4, w4))
              else (Inr Undefined, s2, w1)))"

definition "write" :: "env \<Rightarrow> string \<Rightarrow> Serialport \<Rightarrow> world \<Rightarrow> jsval outcome" where
  "write E v s w =
     (if \<not> isOpen s
        then (Inl (Str (''Serial port '' @ str_of_path (o_path (options s)) @ '' is not opened!'')),
              s, w)
      else case invoke E (Write v (o_path (options s))) w of
        (Inl e, w1) \<Rightarrow> (Inl e, s, w1)
      | (Inr n, w1) \<Rightarrow> (Inr n, s, w1))"

definition writeBinary :: "env \<Rightarrow> bin_value \<Rightarrow> Serialport \<Rightarrow> world \<Rightarrow> jsval outcome" where
  "writeBinary E v s w =
     (if \<not> isOpen s
        then (Inl (Str (''Serial port '' @ str_of_path (o_path (options s)) @ '' is not open!'')),
              s, w)
      else case v of
        NotBytes \<Rightarrow>
          (Inl (Str ''Argument type error! Expected type: string, Uint8Array, number[]''), s, w)
      | U8 xs \<Rightarrow>
          (case invoke E (WriteBinary xs (o_path (options s))) w of
             (Inl e, w1) \<Rightarrow> (Inl e, s, w1)
           | (Inr n, w1) \<Rightarrow> (Inr n, s, w1))
      | Arr xs \<Rightarrow>
          (case invoke E (WriteBinary xs (o_path (options s))) w of
             (Inl e, w1) \<Rightarrow> (Inl e, s, w1)
           | (Inr n, w1) \<Rightarrow> (Inr n, s, w1)))"

section \<open>Event delivery\<close>

text \<open>
  The event feed calls the function \<open>listen\<close> registered, once for each payload on the
  channel. That function reads \<open>this.encoding\<close> when it runs, so it takes the session.
  A callback is a function of the data it is given that returns or throws; the call is
  recorded in the trace. An unlisten function that throws is taken to have left its
  registration in place.
\<close>

record ReadDataResult =
  p_size :: int
  p_data :: "int list"

definition call_fn :: "listener \<Rightarrow> js_data \<Rightarrow> world \<Rightarrow> (err + unit) \<times> world" where
  \<comment> \<open>\<open>fn(data)\<close>: the call is recorded, then the callback returns or throws\<close>
  "call_fn l d w =
     ((case l_fn l d of Some e \<Rightarrow> Inl e | None \<Rightarrow> Inr ()),
      w\<lparr>trace := trace w @ [Callback (l_id l) d]\<rparr>)"

definition handler_body ::
  "env \<Rightarrow> Serialport \<Rightarrow> listener \<Rightarrow> ReadDataResult \<Rightarrow> world \<Rightarrow> (err + unit) \<times> world" where
  \<comment> \<open>the \<open>try\<close> block of the function \<open>listen\<close> registers\<close>
  "handler_body E s l payload w =
     (if l_isDecode l then
        (case decoder E (s_encoding s) (Uint8Array (p_data payload)) of
           Inl e \<Rightarrow> (Inl e, w)
         | Inr txt \<Rightarrow> call_fn l (Text txt) w)
      else call_fn l (Bytes (Uint8Array (p_data payload))) w)"

definition handler ::
  "env \<Rightarrow> Serialport \<Rightarrow> listener \<Rightarrow> ReadDataResult \<Rightarrow> world \<Rightarrow> (err + unit) \<times> world" where
  \<comment> \<open>the function \<open>listen\<close> registers: the body, and its \<open>catch\<close>\<close>
  "handler E s l payload w =
     (case handler_body E s l payload w of
        (Inl e, w1) \<Rightarrow> (Inr (), w1\<lparr>trace := trace w1 @ [ConsoleError e]\<rparr>)
      | (Inr u, w1) \<Rightarrow> (Inr (), w1))"

fun deliver ::
  "env \<Rightarrow> Serialport \<Rightarrow> listener list \<Rightarrow> ReadDataResult \<Rightarrow> world \<Rightarrow> (err + unit) \<times> world" where
  "deliver E s [] payload w = (Inr (), w)"
| "deliver E s (l # ls) payload w =
     (case handler E s l payload w of
        (Inl e, w1) \<Rightarrow> (Inl e, w1)
      | (Inr u, w1) \<Rightarrow> deliver E s ls payload w1)"

definition emit ::
  "env \<Rightarrow> Serialport \<Rightarrow> string \<Rightarrow> ReadDataResult \<Rightarrow> world \<Rightarrow> (err + unit) \<times> world" where
  \<comment> \<open>the event feed delivers a payload on a channel: every handler registered there runs\<close>
  "emit E s ch payload w =
     deliver E s (filter (\<lambda>l. l_channel l = ch) (subs w)) payload w"

section \<open>Sequences of calls\<close>

text \<open>
  The states a session can be in are those a sequence of method calls and event deliveries
  reaches from the constructor, whatever the collaborators answer.
\<close>

datatype op =
    DoCancelListen
  | DoCancelRead
  | DoChange "string option" "int option"
  | DoClose
  | DoListen "js_data \<Rightarrow> err option" bool
  | DoOpen
  | DoRead "ReadOptions option"
  | DoSetBaudRate "int option"
  | DoSetPath "string option"
  | DoWrite string
  | DoWriteBinary bin_value
  | DoEmit string ReadDataResult

fun step :: "env \<Rightarrow> op \<Rightarrow> Serialport \<times> world \<Rightarrow> Serialport \<times> world" where
  "step E DoCancelListen (s, w) = snd (cancelListen E s w)"
| "step E DoCancelRead (s, w) = snd (cancelRead E s w)"
| "step E (DoChange p b) (s, w) = snd (change E p b s w)"
| "step E DoClose (s, w) = snd (close E s w)"
| "step E (DoListen fn d) (s, w) = snd (listen E fn d s w)"
| "step E DoOpen (s, w) = snd (open E s w)"
| "step E (DoRead ro) (s, w) = snd (read E ro s w)"
| "step E (DoSetBaudRate v) (s, w) = snd (setBaudRate E v s w)"
| "step E (DoSetPath v) (s, w) = snd (setPath E v s w)"
| "step E (DoWrite v) (s, w) = snd (write E v s w)"
| "step E (DoWriteBinary v) (s, w) = snd (writeBinary E v s w)"
| "step E (DoEmit ch payload) (s, w) = (s, snd (emit E s ch payload w))"

fun run :: "env \<Rightarrow> op list \<Rightarrow> Serialport \<times> world \<Rightarrow> Serialport \<times> world" where
  "run E [] sw = sw"
| "run E (x # xs) sw = run E xs (step E x sw)"

definition world0 :: world where
  "world0 = \<lparr>trace = [], subs = [], next_sub = 0\<rparr>"

definition valid_when_open :: "Serialport \<Rightarrow> bool" where
  "valid_when_open s =
     (\<not> isOpen s \<or> (truthy_str (o_path (options s)) \<and> truthy_num (o_baudRate (options s))))"

definition one_subscription :: "Serialport \<Rightarrow> world \<Rightarrow> bool" where
  \<comment> \<open>the feed holds at most one registration, and it is the one the session owns\<close>
  "one_subscription s w =
     (length (subs w) \<le> 1 \<and> list_all (\<lambda>l. unListen s = Some (l_id l)) (subs w))"

definition close_sequence :: "Serialport \<Rightarrow> event list" where
  \<comment> \<open>the calls of a complete \<open>close\<close>, in order\<close>
  "close_sequence s =
     [Invoke (CancelRead (o_path (options s))), Invoke (Close (o_path (options s)))] @
     (case unListen s of None \<Rightarrow> [] | Some i \<Rightarrow> [Unlisten i])"

subsection \<open>The reading of the specification for the read parameters\<close>

definition nullish :: "int option \<Rightarrow> int \<Rightarrow> int" where
  \<comment> \<open>\<open>a ?? b\<close>, as the specification writes the effective timeout and size\<close>
  "nullish a b = (case a of None \<Rightarrow> b | Some n \<Rightarrow> n)"

definition given_nonzero :: "int option \<Rightarrow> int \<Rightarrow> int" where
  \<comment> \<open>the given value when one is given and it is not zero, the default otherwise\<close>
  "given_nonzero a b = (if a = None \<or> a = Some 0 then b else the a)"

subsection \<open>Concrete collaborators and sessions\<close>

definition env_ok :: env where
  \<comment> \<open>every call succeeds; a write is answered with the length of its payload\<close>
  "env_ok =
     \<lparr>invoke_reply = (\<lambda>tr c. case c of
          Write v p \<Rightarrow> Inr (Num (int (length v)))
        | WriteBinary xs p \<Rightarrow> Inr (Num (int (length xs)))
        | AvailablePorts \<Rightarrow> Inr (StrList [])
        | _ \<Rightarrow> Inr Undefined),
      listen_reply = (\<lambda>tr ch. None),
      unlisten_reply = (\<lambda>tr i. None),
      decoder = (\<lambda>enc bs. Inr (map (\<lambda>b. char_of b) bs))\<rparr>"

definition env_close_fails :: env where
  \<comment> \<open>the close command is refused, everything else succeeds\<close>
  "env_close_fails =
     env_ok\<lparr>invoke_reply := (\<lambda>tr c. case c of
          Close p \<Rightarrow> Inl (Obj 1 ''busy'')
        | _ \<Rightarrow> Inr Undefined)\<rparr>"

definition env_open_fails_second :: env where
  \<comment> \<open>the open command succeeds on a fresh channel and is refused afterwards\<close>
  "env_open_fails_second =
     env_ok\<lparr>invoke_reply := (\<lambda>tr c. case c of
          Open p b d f q st t \<Rightarrow> (if tr = [] then Inr Undefined else Inl (Obj 2 ''no device''))
        | _ \<Rightarrow> Inr Undefined)\<rparr>"

definition com3 :: SerialportOptions where
  "com3 =
     \<lparr>path = Some ''COM3'', baudRate = Some 9600, encoding = None, dataBits = None,
      flowControl = None, parity = None, stopBits = None, timeout = None, size_f = None\<rparr>"

definition com3_falsy :: SerialportOptions where
  \<comment> \<open>the optional fields are given, each with a falsy value\<close>
  "com3_falsy = com3\<lparr>encoding := Some [], timeout := Some 0, size_f := Some 0\<rparr>"

definition throwing :: "js_data \<Rightarrow> err option" where
  "throwing d = Some (Exn ''Error'' ''boom'')"

definition quiet :: "js_data \<Rightarrow> err option" where
  "quiet d = None"

definition opened :: "Serialport \<times> world" where
  \<comment> \<open>the session of \<open>com3\<close> after \<open>open()\<close> and \<open>listen(throwing)\<close>, every call succeeding\<close>
  "opened = run env_ok [DoOpen, DoListen throwing True] (constructor com3, world0)"

definition unset_baud :: "Serialport \<times> world" where
  \<comment> \<open>the session of \<open>com3\<close> after \<open>open()\<close> and \<open>setBaudRate(undefined)\<close>\<close>
  "unset_baud = run env_ok [DoOpen, DoSetBaudRate None] (constructor com3, world0)"

definition hello :: ReadDataResult where
  "hello = \<lparr>p_size = 5, p_data = [104, 101, 108, 108, 111]\<rparr>"

definition zero_read :: ReadOptions where
  "zero_read = \<lparr>r_timeout = Some 0, r_size = Some 0\<rparr>"

definition callback_argument ::
  "env \<Rightarrow> Serialport \<Rightarrow> listener \<Rightarrow> ReadDataResult \<Rightarrow> js_data option" where
  \<comment> \<open>what the handler passes to the callback; nothing when \<open>TextDecoder\<close> throws\<close>
  "callback_argument E s l payload =
     (if l_isDecode l then
        (case decoder E (s_encoding s) (Uint8Array (p_data payload)) of
           Inl e \<Rightarrow> None
         | Inr txt \<Rightarrow> Some (Text txt))
      else Some (Bytes (Uint8Array (p_data payload))))"

section \<open>Lemmas about single calls\<close>

lemma cancelRead_eq:
  "cancelRead E s w =
     (invoke_reply E (trace w) (CancelRead (o_path (options s))), s,
      w\<lparr>trace := trace w @ [Invoke (CancelRead (o_path (options s)))]\<rparr>)"
  by (simp add: cancelRead_def invoke_def split: sum.splits)

lemma cancelListen_None: "unListen s = None \<Longrightarrow> cancelListen E s w = (Inr Undefined, s, w)"
  by (simp add: cancelListen_def)

lemma cancelListen_ok:
  "unListen s = Some i \<Longrightarrow> unlisten_reply E (trace w) i = None \<Longrightarrow>
   cancelListen E s w =
     (Inr Undefined, s\<lparr>unListen := None\<rparr>,
      w\<lparr>trace := trace w @ [Unlisten i], subs := filter (\<lambda>l. l_id l \<noteq> i) (subs w)\<rparr>)"
  by (simp add: cancelListen_def call_unlisten_def)

lemma cancelListen_throws:
  "unListen s = Some i \<Longrightarrow> unlisten_reply E (trace w) i = Some e \<Longrightarrow>
   cancelListen E s w =
     (Inl (Str (''Error cancelling listen: '' @ to_string e)), s,
      w\<lparr>trace := trace w @ [Unlisten i]\<rparr>)"
  by (simp add: cancelListen_def call_unlisten_def)

lemma close_cancelRead_fails:
  "isOpen s \<Longrightarrow> invoke_reply E (trace w) (CancelRead (o_path (options s))) = Inl e \<Longrightarrow>
   close E s w = (Inl e, s, w\<lparr>trace := trace w @ [Invoke (CancelRead (o_path (options s)))]\<rparr>)"
  by (simp add: close_def cancelRead_eq)

lemma close_close_fails:
  "isOpen s \<Longrightarrow> invoke_reply E (trace w) (CancelRead (o_path (options s))) = Inr a \<Longrightarrow>
   invoke_reply E (trace w @ [Invoke (CancelRead (o_path (options s)))])
     (Close (o_path (options s))) = Inl e \<Longrightarrow>
   close E s w =
     (Inl e, s,
      w\<lparr>trace := trace w @ [Invoke (CancelRead (o_path (options s))),
                             Invoke (Close (o_path (options s)))]\<rparr>)"
  by (simp add: close_def cancelRead_eq invoke_def)

lemma close_after_commands:
  "isOpen s \<Longrightarrow> invoke_reply E (trace w) (CancelRead (o_path (options s))) = Inr a \<Longrightarrow>
   invoke_reply E (trace w @ [Invoke (CancelRead (o_path (options s)))])
     (Close (o_path (options s))) = Inr b \<Longrightarrow>
   close E s w =
     (case cancelListen E s
        (w\<lparr>trace := trace w @ [Invoke (CancelRead (o_path (options s))),
                               Invoke (Close (o_path (options s)))]\<rparr>) of
        (Inl e, s3, w3) \<Rightarrow> (Inl e, s3, w3)
      | (Inr u, s3, w3) \<Rightarrow> (Inr b, s3\<lparr>isOpen := False\<rparr>, w3))"
  by (simp add: close_def cancelRead_eq invoke_def)

lemma close_trace_prefix:
  assumes o: "isOpen s"
  shows "\<exists>n. trace (snd (snd (close E s w))) = trace w @ take n (close_sequence s)"
proof (cases "invoke_reply E (trace w) (CancelRead (o_path (options s)))")
  case (Inl e)
  then have "trace (snd (snd (close E s w))) = trace w @ take 1 (close_sequence s)"
    using o by (simp add: close_cancelRead_fails close_sequence_def)
  then show ?thesis ..
next
  case a: (Inr a)
  show ?thesis
  proof (cases "invoke_reply E (trace w @ [Invoke (CancelRead (o_path (options s)))])
     (Close (o_path (options s)))")
    case (Inl e)
    then have "trace (snd (snd (close E s w))) = trace w @ take 2 (close_sequence s)"
      using o a by (simp add: close_close_fails close_sequence_def)
    then show ?thesis ..
  next
    case b: (Inr b)
    show ?thesis
    proof (cases "unListen s")
      case None
      then have "trace (snd (snd (close E s w))) = trace w @ take 2 (close_sequence s)"
        using o a b by (simp add: close_after_commands cancelListen_None close_sequence_def)
      then show ?thesis ..
    next
      case (Some i)
      then have "trace (snd (snd (close E s w))) = trace w @ take 3 (close_sequence s)"
        using o a b
        by (cases "unlisten_reply E (trace w @ [Invoke (CancelRead (o_path (options s))),
                               Invoke (Close (o_path (options s)))]) i")
           (simp_all add: close_after_commands cancelListen_ok cancelListen_throws
              close_sequence_def)
      then show ?thesis ..
    qed
  qed
qed

lemma close_done:
  assumes o: "isOpen s" and c: "\<not> isOpen (fst (snd (close E s w)))"
  shows "trace (snd (snd (close E s w))) = trace w @ close_sequence s \<and>
     (\<exists>r. fst (close E s w) = Inr r) \<and> unListen (fst (snd (close E s w))) = None"
proof (cases "invoke_reply E (trace w) (CancelRead (o_path (options s)))")
  case (Inl e)
  then show ?thesis using o c by (simp add: close_cancelRead_fails)
next
  case a: (Inr a)
  show ?thesis
  proof (cases "invoke_reply E (trace w @ [Invoke (CancelRead (o_path (options s)))])
     (Close (o_path (options s)))")
    case (Inl e)
    then show ?thesis using o a c by (simp add: close_close_fails)
  next
    case b: (Inr b)
    show ?thesis
    proof (cases "unListen s")
      case None
      then show ?thesis
        using o a b by (simp add: close_after_commands cancelListen_None close_sequence_def)
    next
      case (Some i)
      then show ?thesis
        using o a b c
        by (cases "unlisten_reply E (trace w @ [Invoke (CancelRead (o_path (options s))),
                               Invoke (Close (o_path (options s)))]) i")
           (simp_all add: close_after_commands cancelListen_ok cancelListen_throws
              close_sequence_def)
    qed
  qed
qed

lemma close_success:
  assumes "isOpen s"
    and "invoke_reply E (trace w) (CancelRead (o_path (options s))) = Inr a"
    and "invoke_reply E (trace w @ [Invoke (CancelRead (o_path (options s)))])
           (Close (o_path (options s))) = Inr b"
    and "\<forall>i. unListen s = Some i \<longrightarrow>
           unlisten_reply E (trace w @ take 2 (close_sequence s)) i = None"
  shows "close E s w =
      (Inr b, s\<lparr>unListen := None, isOpen := False\<rparr>,
       w\<lparr>trace := trace w @ close_sequence s,
         subs := (case unListen s of None \<Rightarrow> subs w
                  | Some i \<Rightarrow> filter (\<lambda>l. l_id l \<noteq> i) (subs w))\<rparr>)"
proof (cases "unListen s")
  case None
  then have "s\<lparr>unListen := None\<rparr> = s" by simp
  then show ?thesis
    using assms None by (simp add: close_after_commands cancelListen_None close_sequence_def)
next
  case (Some i)
  then show ?thesis
    using assms by (simp add: close_after_commands cancelListen_ok close_sequence_def)
qed

section \<open>A session is open only with a path and a baud rate\<close>

lemmas op_defs = close_def cancelRead_def cancelListen_def call_unlisten_def invoke_def
  open_def listen_def appWindow_listen_def read_def write_def writeBinary_def

lemma close_valid:
  "valid_when_open s \<Longrightarrow> valid_when_open (fst (snd (close E s w)))"
  by (auto simp: valid_when_open_def op_defs Let_def split: sum.splits option.splits prod.splits)

lemma close_Inr_closed:
  "fst (close E s w) = Inr r \<Longrightarrow> \<not> isOpen (fst (snd (close E s w)))"
  by (auto simp: op_defs Let_def split: sum.splits option.splits prod.splits if_splits)

lemma open_valid:
  "valid_when_open s \<or> \<not> isOpen s \<Longrightarrow> valid_when_open (fst (snd (open E s w)))"
  by (auto simp: valid_when_open_def op_defs Let_def split: sum.splits option.splits prod.splits)

lemma set_closed [simp]:
  "isOpen (set_path p s) = isOpen s" "isOpen (set_baudRate b s) = isOpen s"
  "unListen (set_path p s) = unListen s" "unListen (set_baudRate b s) = unListen s"
  by (simp_all add: set_path_def set_baudRate_def)

lemma set_closed_valid:
  "\<not> isOpen s \<Longrightarrow> valid_when_open (set_path p s)"
  "\<not> isOpen s \<Longrightarrow> valid_when_open (set_baudRate b s)"
  by (simp_all add: valid_when_open_def)

lemma reopen_snd:
  "snd (case open E s w of (Inl e, s4, w4) \<Rightarrow> (Inl e, s4, w4)
                         | (Inr u, s4, w4) \<Rightarrow> (Inr Undefined, s4, w4)) = snd (open E s w)"
  by (simp split: prod.splits sum.splits)

lemma change_valid:
  assumes "valid_when_open s"
  shows "valid_when_open (fst (snd (change E p b s w)))"
proof (cases "isOpen s")
  case False
  then show ?thesis
    by (simp add: change_def Let_def valid_when_open_def)
next
  case True
  obtain r s1 w1 where c: "close E s w = (r, s1, w1)" by (cases "close E s w") auto
  show ?thesis
  proof (cases r)
    case (Inl e)
    with c True close_valid [OF assms, of E w] show ?thesis
      by (simp add: change_def Let_def)
  next
    case (Inr u)
    with c close_Inr_closed [of E s w u] have cl: "\<not> isOpen s1" by simp
    let ?s2 = "if truthy_str p then set_path p s1 else s1"
    let ?s3 = "if truthy_num b then set_baudRate b ?s2 else ?s2"
    have "\<not> isOpen ?s3" using cl by simp
    then have "valid_when_open (fst (snd (open E ?s3 w1)))" by (rule open_valid [OF disjI2])
    with c True Inr show ?thesis
      by (simp add: change_def Let_def reopen_snd)
  qed
qed

lemma setBaudRate_valid:
  assumes "valid_when_open s"
  shows "valid_when_open (fst (snd (setBaudRate E v s w)))"
proof (cases "isOpen s")
  case False
  then show ?thesis
    by (simp add: setBaudRate_def Let_def valid_when_open_def)
next
  case True
  obtain r s1 w1 where c: "close E s w = (r, s1, w1)" by (cases "close E s w") auto
  show ?thesis
  proof (cases r)
    case (Inl e)
    with c True close_valid [OF assms, of E w] show ?thesis
      by (simp add: setBaudRate_def Let_def)
  next
    case (Inr u)
    with c close_Inr_closed [of E s w u] have cl: "\<not> isOpen s1" by simp
    have "\<not> isOpen (set_baudRate v s1)" using cl by simp
    then have "valid_when_open (fst (snd (open E (set_baudRate v s1) w1)))"
      by (rule open_valid [OF disjI2])
    with c True Inr show ?thesis
      by (simp add: setBaudRate_def Let_def reopen_snd)
  qed
qed

lemma setPath_valid:
  assumes "valid_when_open s"
  shows "valid_when_open (fst (snd (setPath E v s w)))"
proof (cases "isOpen s")
  case False
  then show ?thesis
    by (simp add: setPath_def Let_def valid_when_open_def)
next
  case True
  obtain r s1 w1 where c: "close E s w = (r, s1, w1)" by (cases "close E s w") auto
  show ?thesis
  proof (cases r)
    case (Inl e)
    with c True close_valid [OF assms, of E w] show ?thesis
      by (simp add: setPath_def Let_def)
  next
    case (Inr u)
    with c close_Inr_closed [of E s w u] have cl: "\<not> isOpen s1" by simp
    have "\<not> isOpen (set_path v s1)" using cl by simp
    then have "valid_when_open (fst (snd (open E (set_path v s1) w1)))"
      by (rule open_valid [OF disjI2])
    with c True Inr show ?thesis
      by (simp add: setPath_def Let_def reopen_snd)
  qed
qed

lemma simple_valid:
  "valid_when_open s \<Longrightarrow> valid_when_open (fst (snd (cancelListen E s w)))"
  "valid_when_open s \<Longrightarrow> valid_when_open (fst (snd (cancelRead E s w)))"
  "valid_when_open s \<Longrightarrow> valid_when_open (fst (snd (listen E fn d s w)))"
  "valid_when_open s \<Longrightarrow> valid_when_open (fst (snd (read E ro s w)))"
  "valid_when_open s \<Longrightarrow> valid_when_open (fst (snd (write E v s w)))"
  "valid_when_open s \<Longrightarrow> valid_when_open (fst (snd (writeBinary E bv s w)))"
  by (auto simp: valid_when_open_def op_defs Let_def
      split: sum.splits option.splits prod.splits bin_value.splits)

lemma step_valid:
  "valid_when_open (fst sw) \<Longrightarrow> valid_when_open (fst (step E x sw))"
  by (cases sw; cases x)
     (simp_all add: simple_valid close_valid open_valid change_valid setBaudRate_valid
        setPath_valid)

lemma run_valid:
  "valid_when_open (fst sw) \<Longrightarrow> valid_when_open (fst (run E xs sw))"
  by (induction xs arbitrary: sw) (simp_all add: step_valid)

lemma constructor_valid: "valid_when_open (constructor opts)"
  by (simp add: valid_when_open_def constructor_def)

lemma reachable_valid: "valid_when_open (fst (run E xs (constructor opts, w)))"
  by (rule run_valid) (simp add: constructor_valid)

section \<open>At most one registration\<close>

lemma filter_owned':
  "list_all (\<lambda>l. i = l_id l) xs \<Longrightarrow> filter (\<lambda>l. l_id l \<noteq> i) xs = []"
  by (induction xs) auto

lemma cancelListen_sub:
  assumes "one_subscription s w"
  shows "one_subscription (fst (snd (cancelListen E s w))) (snd (snd (cancelListen E s w)))"
proof (cases "unListen s")
  case None
  with assms show ?thesis by (simp add: cancelListen_None)
next
  case (Some i)
  with assms show ?thesis
    by (cases "unlisten_reply E (trace w) i")
       (simp_all add: cancelListen_ok cancelListen_throws one_subscription_def filter_owned')
qed

lemma cancelListen_Inr_empty:
  assumes "one_subscription s w" and "fst (cancelListen E s w) = Inr r"
  shows "unListen (fst (snd (cancelListen E s w))) = None \<and>
         subs (snd (snd (cancelListen E s w))) = []"
proof (cases "unListen s")
  case None
  with assms show ?thesis
    by (cases "subs w") (simp_all add: cancelListen_None one_subscription_def)
next
  case (Some i)
  with assms show ?thesis
    by (cases "unlisten_reply E (trace w) i")
       (simp_all add: cancelListen_ok cancelListen_throws one_subscription_def filter_owned')
qed

lemma after_cancel_proj:
  "unListen (fst (snd (case c of (Inl e, s3, w3) \<Rightarrow> (Inl e, s3, w3)
      | (Inr u, s3, w3) \<Rightarrow> (Inr b, s3\<lparr>isOpen := False\<rparr>, w3)))) = unListen (fst (snd c))"
  "subs (snd (snd (case c of (Inl e, s3, w3) \<Rightarrow> (Inl e, s3, w3)
      | (Inr u, s3, w3) \<Rightarrow> (Inr b, s3\<lparr>isOpen := False\<rparr>, w3)))) = subs (snd (snd c))"
  by (simp_all split: prod.splits sum.splits)

lemma one_subscription_cong:
  "unListen s' = unListen s \<Longrightarrow> subs w' = subs w \<Longrightarrow>
   one_subscription s' w' = one_subscription s w"
  by (simp add: one_subscription_def)

lemma open_frame:
  "unListen (fst (snd (open E s w))) = unListen s" "subs (snd (snd (open E s w))) = subs w"
  by (auto simp: open_def invoke_def split: sum.splits)

lemma close_sub:
  assumes "one_subscription s w"
  shows "one_subscription (fst (snd (close E s w))) (snd (snd (close E s w)))"
proof (cases "isOpen s")
  case False
  with assms show ?thesis by (simp add: close_def)
next
  case o: True
  show ?thesis
  proof (cases "invoke_reply E (trace w) (CancelRead (o_path (options s)))")
    case (Inl e)
    with o assms show ?thesis
      by (simp add: close_cancelRead_fails one_subscription_def)
  next
    case a: (Inr a)
    show ?thesis
    proof (cases "invoke_reply E (trace w @ [Invoke (CancelRead (o_path (options s)))])
       (Close (o_path (options s)))")
      case (Inl e)
      with o a assms show ?thesis
        by (simp add: close_close_fails one_subscription_def)
    next
      case b: (Inr b)
      let ?w2 = "w\<lparr>trace := trace w @ [Invoke (CancelRead (o_path (options s))),
                               Invoke (Close (o_path (options s)))]\<rparr>"
      have "one_subscription s ?w2" using assms by (simp add: one_subscription_def)
      from cancelListen_sub [OF this, of E] o a b show ?thesis
        by (simp add: close_after_commands one_subscription_def after_cancel_proj)
    qed
  qed
qed

lemma listen_sub:
  assumes "one_subscription s w"
  shows "one_subscription (fst (snd (listen E fn d s w))) (snd (snd (listen E fn d s w)))"
proof -
  obtain r s1 w1 where c: "cancelListen E s w = (r, s1, w1)" by (cases "cancelListen E s w") auto
  show ?thesis
  proof (cases r)
    case (Inl e)
    with c cancelListen_sub [OF assms, of E] show ?thesis by (simp add: listen_def)
  next
    case (Inr u)
    with c cancelListen_Inr_empty [OF assms, of E u] have "unListen s1 = None" "subs w1 = []"
      by simp_all
    with c Inr show ?thesis
      by (simp add: listen_def appWindow_listen_def one_subscription_def Let_def
          split: option.splits)
  qed
qed

lemma reconf_sub:
  assumes "one_subscription s w" and f: "\<And>x. unListen (f x) = unListen x"
  shows "one_subscription
     (fst (snd (case (if isOpen s then close E s w else (Inr Undefined, s, w)) of
        (Inl e, s1, w1) \<Rightarrow> (Inl e, s1, w1)
      | (Inr u, s1, w1) \<Rightarrow>
          (if isOpen s then
                (case open E (f s1) w1 of
                   (Inl e, s4, w4) \<Rightarrow> (Inl e, s4, w4)
                 | (Inr u', s4, w4) \<Rightarrow> (Inr Undefined, s4, w4))
              else (Inr Undefined, f s1, w1)))))
     (snd (snd (case (if isOpen s then close E s w else (Inr Undefined, s, w)) of
        (Inl e, s1, w1) \<Rightarrow> (Inl e, s1, w1)
      | (Inr u, s1, w1) \<Rightarrow>
          (if isOpen s then
                (case open E (f s1) w1 of
                   (Inl e, s4, w4) \<Rightarrow> (Inl e, s4, w4)
                 | (Inr u', s4, w4) \<Rightarrow> (Inr Undefined, s4, w4))
              else (Inr Undefined, f s1, w1)))))"
proof (cases "isOpen s")
  case False
  with assms show ?thesis by (simp add: one_subscription_def)
next
  case True
  obtain r s1 w1 where c: "close E s w = (r, s1, w1)" by (cases "close E s w") auto
  with close_sub [OF assms(1), of E] have s1: "one_subscription s1 w1" by simp
  show ?thesis
  proof (cases r)
    case (Inl e)
    with c True s1 show ?thesis by simp
  next
    case (Inr u)
    have "one_subscription (fst (snd (open E (f s1) w1))) (snd (snd (open E (f s1) w1)))"
      using s1 by (simp add: one_subscription_def open_frame f)
    with c True Inr show ?thesis by (simp add: reopen_snd)
  qed
qed

lemma change_sub:
  "one_subscription s w \<Longrightarrow>
   one_subscription (fst (snd (change E p b s w))) (snd (snd (change E p b s w)))"
  unfolding change_def Let_def
  by (rule reconf_sub [where f = "\<lambda>s1. if truthy_num b
         then set_baudRate b (if truthy_str p then set_path p s1 else s1)
         else (if truthy_str p then set_path p s1 else s1)"]) simp_all

lemma setBaudRate_sub:
  "one_subscription s w \<Longrightarrow>
   one_subscription (fst (snd (setBaudRate E v s w))) (snd (snd (setBaudRate E v s w)))"
  unfolding setBaudRate_def Let_def
  by (rule reconf_sub [where f = "set_baudRate v"]) simp_all

lemma setPath_sub:
  "one_subscription s w \<Longrightarrow>
   one_subscription (fst (snd (setPath E v s w))) (snd (snd (setPath E v s w)))"
  unfolding setPath_def Let_def
  by (rule reconf_sub [where f = "set_path v"]) simp_all

lemma handler_subs: "subs (snd (handler E s l p w)) = subs w"
  by (simp add: handler_def handler_body_def call_fn_def split: sum.splits option.splits)

lemma handler_Inr: "fst (handler E s l p w) = Inr ()"
  by (simp add: handler_def split: prod.splits sum.splits)

lemma deliver_subs: "subs (snd (deliver E s ls p w)) = subs w"
proof (induction ls arbitrary: w)
  case Nil
  show ?case by simp
next
  case (Cons l ls)
  obtain r w1 where h: "handler E s l p w = (r, w1)" by (cases "handler E s l p w") auto
  with handler_subs [of E s l p w] have "subs w1 = subs w" by simp
  with h Cons [of w1] show ?case by (cases r) simp_all
qed

lemma deliver_Inr: "fst (deliver E s ls p w) = Inr ()"
proof (induction ls arbitrary: w)
  case Nil
  show ?case by simp
next
  case (Cons l ls)
  obtain r w1 where h: "handler E s l p w = (r, w1)" by (cases "handler E s l p w") auto
  with handler_Inr [of E s l p w] have "r = Inr ()" by simp
  with h Cons [of w1] show ?case by simp
qed

lemma simple_sub:
  "one_subscription s w \<Longrightarrow>
     one_subscription (fst (snd (cancelRead E s w))) (snd (snd (cancelRead E s w)))"
  "one_subscription s w \<Longrightarrow>
     one_subscription (fst (snd (open E s w))) (snd (snd (open E s w)))"
  "one_subscription s w \<Longrightarrow>
     one_subscription (fst (snd (read E ro s w))) (snd (snd (read E ro s w)))"
  "one_subscription s w \<Longrightarrow>
     one_subscription (fst (snd (write E v s w))) (snd (snd (write E v s w)))"
  "one_subscription s w \<Longrightarrow>
     one_subscription (fst (snd (writeBinary E bv s w))) (snd (snd (writeBinary E bv s w)))"
  "one_subscription s w \<Longrightarrow> one_subscription s (snd (emit E s ch p w))"
  by (auto simp: one_subscription_def op_defs Let_def emit_def deliver_subs
      split: sum.splits option.splits prod.splits bin_value.splits)

lemma step_sub:
  "one_subscription (fst sw) (snd sw) \<Longrightarrow>
   one_subscription (fst (step E x sw)) (snd (step E x sw))"
  by (cases sw; cases x)
     (simp_all add: simple_sub cancelListen_sub close_sub listen_sub change_sub
        setBaudRate_sub setPath_sub)

lemma run_sub:
  "one_subscription (fst sw) (snd sw) \<Longrightarrow>
   one_subscription (fst (run E xs sw)) (snd (run E xs sw))"
  by (induction xs arbitrary: sw) (simp_all add: step_sub)

section \<open>Reconfiguration\<close>

lemma close_options: "options (fst (snd (close E s w))) = options s"
proof (cases "isOpen s")
  case False
  then show ?thesis by (simp add: close_def)
next
  case o: True
  show ?thesis
  proof (cases "invoke_reply E (trace w) (CancelRead (o_path (options s)))")
    case (Inl e)
    with o show ?thesis by (simp add: close_cancelRead_fails)
  next
    case a: (Inr a)
    show ?thesis
    proof (cases "invoke_reply E (trace w @ [Invoke (CancelRead (o_path (options s)))])
       (Close (o_path (options s)))")
      case (Inl e)
      with o a show ?thesis by (simp add: close_close_fails)
    next
      case b: (Inr b)
      show ?thesis
      proof (cases "unListen s")
        case None
        with o a b show ?thesis by (simp add: close_after_commands cancelListen_None)
      next
        case (Some i)
        with o a b show ?thesis
          by (cases "unlisten_reply E (trace w @ [Invoke (CancelRead (o_path (options s))),
                               Invoke (Close (o_path (options s)))]) i")
             (simp_all add: close_after_commands cancelListen_ok cancelListen_throws)
      qed
    qed
  qed
qed

lemma open_Inl_same: "open E s w = (Inl e, s', w') \<Longrightarrow> s' = s"
  by (auto simp: open_def invoke_def split: if_splits sum.splits)

lemma open_Inr_closed:
  "\<not> isOpen s \<Longrightarrow> open E s w = (Inr r, s', w') \<Longrightarrow>
   s' = s\<lparr>isOpen := True\<rparr> \<and>
   w' = w\<lparr>trace := trace w @
     [Invoke (Open (o_path (options s)) (o_baudRate (options s)) (o_dataBits (options s))
        (o_flowControl (options s)) (o_parity (options s)) (o_stopBits (options s))
        (o_timeout (options s)))]\<rparr>"
  by (auto simp: open_def invoke_def split: if_splits sum.splits)

lemma change_open_unfold:
  "isOpen s \<Longrightarrow> v \<noteq> 0 \<Longrightarrow>
   change E None (Some v) s w =
     (case close E s w of
        (Inl e, s1, w1) \<Rightarrow> (Inl e, s1, w1)
      | (Inr u, s1, w1) \<Rightarrow>
          (case open E (set_baudRate (Some v) s1) w1 of
             (Inl e, s4, w4) \<Rightarrow> (Inl e, s4, w4)
           | (Inr u', s4, w4) \<Rightarrow> (Inr Undefined, s4, w4)))"
  by (cases "close E s w")
     (auto simp: change_def Let_def truthy_str_def truthy_num_def split: sum.splits)

lemma change_success:
  assumes o: "isOpen s" and v: "v \<noteq> 0"
    and c: "change E None (Some v) s w = (Inr r, s', w')"
  shows "(\<exists>u s1 w1 r'. close E s w = (Inr u, s1, w1) \<and>
            open E (set_baudRate (Some v) s1) w1 = (Inr r', s', w')) \<and>
         isOpen s' \<and> o_baudRate (options s') = Some v \<and>
         trace w' = trace w @ close_sequence s @
           [Invoke (Open (o_path (options s)) (Some v) (o_dataBits (options s))
              (o_flowControl (options s)) (o_parity (options s)) (o_stopBits (options s))
              (o_timeout (options s)))]"
proof -
  obtain x s1 w1 where cl: "close E s w = (x, s1, w1)" by (cases "close E s w") auto
  from c cl obtain u where x: "x = Inr u"
    by (cases x) (simp_all add: change_open_unfold [OF o v])
  obtain y s4 w4 where op: "open E (set_baudRate (Some v) s1) w1 = (y, s4, w4)"
    by (cases "open E (set_baudRate (Some v) s1) w1") auto
  from c cl x op obtain r' where y: "y = Inr r'" and e: "s' = s4" "w' = w4"
    by (cases y) (simp_all add: change_open_unfold [OF o v])
  from close_Inr_closed [of E s w u] cl x have closed: "\<not> isOpen s1" by simp
  from close_done [OF o, of E w] cl closed have tr: "trace w1 = trace w @ close_sequence s"
    by simp
  from close_options [of E s w] cl have opts: "options s1 = options s" by simp
  from closed have "\<not> isOpen (set_baudRate (Some v) s1)" by simp
  from open_Inr_closed [OF this, of E w1 r' s4 w4] op y
  have s4: "s4 = (set_baudRate (Some v) s1)\<lparr>isOpen := True\<rparr>"
    and w4: "trace w4 = trace w1 @
     [Invoke (Open (o_path (options s)) (Some v) (o_dataBits (options s))
        (o_flowControl (options s)) (o_parity (options s)) (o_stopBits (options s))
        (o_timeout (options s)))]"
    by (simp_all add: set_baudRate_def opts)
  from s4 have "isOpen s4" "o_baudRate (options s4) = Some v"
    by (simp_all add: set_baudRate_def)
  with tr e cl x op y w4 show ?thesis by simp
qed

lemma change_reopen_fails:
  assumes o: "isOpen s" and v: "v \<noteq> 0"
    and cl: "close E s w = (Inr u, s1, w1)"
    and op: "open E (set_baudRate (Some v) s1) w1 = (Inl e, s2, w2)"
  shows "change E None (Some v) s w = (Inl e, s2, w2) \<and> \<not> isOpen s2"
proof -
  from close_Inr_closed [of E s w u] cl have "\<not> isOpen s1" by simp
  moreover from open_Inl_same [OF op] have "s2 = set_baudRate (Some v) s1" .
  ultimately show ?thesis using cl op by (simp add: change_open_unfold [OF o v])
qed

lemma opened_eq:
  "opened =
    (\<lparr>isOpen = True, unListen = Some 0, s_encoding = ''utf-8'',
      options = \<lparr>o_path = Some ''COM3'', o_baudRate = Some 9600, o_dataBits = 8,
        o_flowControl = None, o_parity = None, o_stopBits = 2, o_timeout = 200\<rparr>,
      s_size = 1024\<rparr>,
     \<lparr>trace = [Invoke (Open (Some ''COM3'') (Some 9600) 8 None None 2 200),
               Listen ''plugin-serialport-read-COM3''],
      subs = [\<lparr>l_id = 0, l_channel = ''plugin-serialport-read-COM3'', l_fn = throwing,
               l_isDecode = True\<rparr>],
      next_sub = 1\<rparr>)"
  by (simp add: opened_def constructor_def com3_def world0_def env_ok_def op_defs
      truthy_str_def truthy_num_def or_num_def or_str_def str_of_path_def Let_def)

section \<open>Event delivery and concrete sessions\<close>

lemma unset_baud_eq:
  "unset_baud =
    (\<lparr>isOpen = False, unListen = None, s_encoding = ''utf-8'',
      options = \<lparr>o_path = Some ''COM3'', o_baudRate = None, o_dataBits = 8,
        o_flowControl = None, o_parity = None, o_stopBits = 2, o_timeout = 200\<rparr>,
      s_size = 1024\<rparr>,
     \<lparr>trace = [Invoke (Open (Some ''COM3'') (Some 9600) 8 None None 2 200),
               Invoke (CancelRead (Some ''COM3'')), Invoke (Close (Some ''COM3''))],
      subs = [], next_sub = 0\<rparr>)"
  by (simp add: unset_baud_def constructor_def com3_def world0_def env_ok_def op_defs
      setBaudRate_def set_baudRate_def
      truthy_str_def truthy_num_def or_num_def or_str_def str_of_path_def Let_def)

lemma hello_argument:
  "callback_argument env_ok (fst opened) (hd (subs (snd opened))) hello = Some (Text ''hello'')"
  by (simp add: callback_argument_def opened_eq hello_def env_ok_def Uint8Array_def char_of_def)

lemma listen_replaces:
  assumes u: "unListen s = Some i" and l: "listen E fn d s w = (Inr r, s', w')"
  shows "trace w' = trace w @
           [Unlisten i, Listen (''plugin-serialport-read-'' @ str_of_path (o_path (options s)))] \<and>
         unListen s' = Some (next_sub w) \<and>
         subs w' = filter (\<lambda>l. l_id l \<noteq> i) (subs w) @
           [\<lparr>l_id = next_sub w,
             l_channel = ''plugin-serialport-read-'' @ str_of_path (o_path (options s)),
             l_fn = fn, l_isDecode = d\<rparr>]"
proof (cases "unlisten_reply E (trace w) i")
  case (Some e)
  with u l show ?thesis by (simp add: listen_def cancelListen_throws)
next
  case None
  with u l show ?thesis
    by (cases "listen_reply E (trace w @ [Unlisten i])
          (''plugin-serialport-read-'' @ str_of_path (o_path (options s)))")
       (auto simp: listen_def cancelListen_ok appWindow_listen_def Let_def)
qed

lemma cancelListen_released:
  assumes c: "cancelListen E s w = (Inr r, s', w')"
  shows "unListen s' = None \<and> cancelListen E2 s' w2 = (Inr Undefined, s', w2) \<and>
         (\<forall>i. unListen s = Some i \<longrightarrow>
            trace w' = trace w @ [Unlisten i] \<and> i \<notin> l_id ` set (subs w'))"
proof (cases "unListen s")
  case None
  with c show ?thesis by (auto simp: cancelListen_None)
next
  case (Some i)
  with c show ?thesis
    by (cases "unlisten_reply E (trace w) i")
       (auto simp: cancelListen_ok cancelListen_throws cancelListen_None)
qed

lemma handler_throwing:
  "callback_argument E s l p = Some d \<Longrightarrow> l_fn l d = Some e \<Longrightarrow>
   handler E s l p w = (Inr (), w\<lparr>trace := trace w @ [Callback (l_id l) d, ConsoleError e]\<rparr>)"
  by (auto simp: callback_argument_def handler_def handler_body_def call_fn_def
      split: if_splits sum.splits)

lemma handler_trace:
  "\<exists>evs. trace (snd (handler E s l p w)) = trace w @ evs \<and>
     (\<forall>d. callback_argument E s l p = Some d \<longrightarrow> Callback (l_id l) d \<in> set evs)"
  by (cases "l_isDecode l"; cases "decoder E (s_encoding s) (Uint8Array (p_data p))")
     (auto simp: callback_argument_def handler_def handler_body_def call_fn_def
      split: option.splits)

lemma deliver_trace:
  "\<exists>evs. trace (snd (deliver E s ls p w)) = trace w @ evs \<and>
     (\<forall>l\<in>set ls. \<forall>d. callback_argument E s l p = Some d \<longrightarrow> Callback (l_id l) d \<in> set evs)"
proof (induction ls arbitrary: w)
  case Nil
  show ?case by simp
next
  case (Cons l ls)
  obtain r w1 where h: "handler E s l p w = (r, w1)" by (cases "handler E s l p w") auto
  with handler_Inr [of E s l p w] have r: "r = Inr ()" by simp
  from handler_trace [of E s l p w] h obtain e1 where
    e1: "trace w1 = trace w @ e1"
      "\<forall>d. callback_argument E s l p = Some d \<longrightarrow> Callback (l_id l) d \<in> set e1"
    by auto
  from Cons [of w1] obtain e2 where
    e2: "trace (snd (deliver E s ls p w1)) = trace w1 @ e2"
      "\<forall>l\<in>set ls. \<forall>d. callback_argument E s l p = Some d \<longrightarrow> Callback (l_id l) d \<in> set e2"
    by auto
  have "trace (snd (deliver E s (l # ls) p w)) = trace w @ (e1 @ e2)"
    using h r e1 e2 by simp
  moreover have "\<forall>l'\<in>set (l # ls). \<forall>d. callback_argument E s l' p = Some d \<longrightarrow>
      Callback (l_id l') d \<in> set (e1 @ e2)"
    using e1 e2 by auto
  ultimately show ?case by blast
qed

lemma emit_again:
  assumes "l \<in> set (subs w)" "l_channel l = ch" "callback_argument E s l p2 = Some d2"
  shows "Callback (l_id l) d2 \<in>
     set (drop (length (trace (snd (emit E s ch p w))))
            (trace (snd (emit E s ch p2 (snd (emit E s ch p w))))))"
proof -
  let ?w1 = "snd (emit E s ch p w)"
  have s1: "subs ?w1 = subs w" by (simp add: emit_def deliver_subs)
  from deliver_trace [of E s "filter (\<lambda>l. l_channel l = ch) (subs ?w1)" p2 ?w1]
  obtain evs where
    evs: "trace (snd (emit E s ch p2 ?w1)) = trace ?w1 @ evs"
      "\<forall>l\<in>set (filter (\<lambda>l. l_channel l = ch) (subs ?w1)). \<forall>d.
         callback_argument E s l p2 = Some d \<longrightarrow> Callback (l_id l) d \<in> set evs"
    by (auto simp: emit_def)
  from assms s1 have "l \<in> set (filter (\<lambda>l. l_channel l = ch) (subs ?w1))" by simp
  with evs(2) assms(3) have "Callback (l_id l) d2 \<in> set evs" by blast
  with evs(1) show ?thesis by simp
qed

lemma listen_ignores_fn: "fst (listen E fn d s w) = fst (listen E fn2 d s w)"
  by (cases "cancelListen E s w")
     (auto simp: listen_def appWindow_listen_def Let_def split: sum.splits option.splits)


section \<open>Reading\<close>

text \<open>
  C1 (as the specification states it): \<open>read\<close> issues the read command with
  \<open>timeout = opts.timeout ?? session.timeoutMs\<close> and \<open>size = opts.size ?? session.chunkSize\<close>,
  also when the caller passes 0. The source writes \<open>||\<close>, not \<open>??\<close>: for the session of
  \<open>com3\<close> and the options \<open>{timeout: 0, size: 0}\<close> the command carries the defaults 200 and
  1024, where the specification's reading gives 0 and 0.
\<close>

theorem read_zero_counterexample:
  "trace (snd (snd (read env_ok (Some zero_read) (constructor com3) world0))) =
     [Invoke (Read (Some ''COM3'') 200 1024)] \<and>
   trace (snd (snd (read env_ok (Some zero_read) (constructor com3) world0))) \<noteq>
     [Invoke (Read (o_path (options (constructor com3)))
        (nullish (read_timeout (Some zero_read)) (o_timeout (options (constructor com3))))
        (nullish (read_size (Some zero_read)) (s_size (constructor com3))))]"
  by (simp add: read_def invoke_def or_num_def nullish_def constructor_def com3_def env_ok_def
      world0_def read_timeout_def read_size_def zero_read_def)

text \<open>
  C1 (amended): for every session and every options argument, \<open>read\<close> issues exactly one
  command, the read command for the session's path, with the timeout the caller gave when
  one is given and it is not zero, and the session's default timeout otherwise, and with
  the size the caller gave when one is given and it is not zero, and the session's default
  chunk size otherwise. The call returns what the command channel answers and leaves the
  session as it was.
\<close>

theorem read_effective_parameters:
  "read E ro s w =
     (invoke_reply E (trace w)
        (Read (o_path (options s))
           (given_nonzero (read_timeout ro) (o_timeout (options s)))
           (given_nonzero (read_size ro) (s_size s))),
      s,
      w\<lparr>trace := trace w @
         [Invoke (Read (o_path (options s))
            (given_nonzero (read_timeout ro) (o_timeout (options s)))
            (given_nonzero (read_size ro) (s_size s)))]\<rparr>)"
  by (auto simp: read_def invoke_def or_num_def given_nonzero_def split: option.splits sum.splits)

theorem read_effective_parameters_witness:
  "read env_ok (Some \<lparr>r_timeout = Some 50, r_size = None\<rparr>) (constructor com3) world0 =
     (Inr Undefined, constructor com3,
      world0\<lparr>trace := [Invoke (Read (Some ''COM3'') 50 1024)]\<rparr>)"
  using read_effective_parameters
    [of env_ok "Some \<lparr>r_timeout = Some 50, r_size = None\<rparr>" "constructor com3" world0]
  by (simp add: given_nonzero_def read_timeout_def read_size_def constructor_def com3_def
      env_ok_def world0_def or_num_def)

section \<open>Writing to a closed session\<close>

text \<open>
  C2: for every session with \<open>isOpen = false\<close>, \<open>write\<close> and \<open>writeBinary\<close> both fail with
  the local not-open message, issue no call (the trace and the registrations are as
  before) and leave the session unchanged.
\<close>

theorem write_not_open:
  assumes "\<not> isOpen s"
  shows "write E v s w =
           (Inl (Str (''Serial port '' @ str_of_path (o_path (options s)) @ '' is not opened!'')),
            s, w) \<and>
         writeBinary E b s w =
           (Inl (Str (''Serial port '' @ str_of_path (o_path (options s)) @ '' is not open!'')),
            s, w)"
  using assms by (simp add: write_def writeBinary_def)

theorem write_not_open_witness:
  "\<not> isOpen (constructor com3) \<and>
   write env_ok ''hi'' (constructor com3) world0 =
     (Inl (Str ''Serial port COM3 is not opened!''), constructor com3, world0) \<and>
   writeBinary env_ok (U8 [104, 105]) (constructor com3) world0 =
     (Inl (Str ''Serial port COM3 is not open!''), constructor com3, world0)"
  using write_not_open [of "constructor com3" env_ok "''hi''" world0 "U8 [104, 105]"]
  by (simp add: constructor_def com3_def str_of_path_def)

section \<open>Closing a closed session\<close>

text \<open>
  C4: for every session with \<open>isOpen = false\<close>, \<open>close\<close> resolves (with \<open>undefined\<close>),
  issues no call and changes nothing, whatever the collaborators would answer.
\<close>

theorem close_closed_noop:
  assumes "\<not> isOpen s"
  shows "close E s w = (Inr Undefined, s, w)"
  using assms by (simp add: close_def)

theorem close_closed_noop_witness:
  "\<not> isOpen (constructor com3) \<and>
   close env_close_fails (constructor com3) world0 = (Inr Undefined, constructor com3, world0)"
  using close_closed_noop [of "constructor com3" env_close_fails world0]
  by (simp add: constructor_def)

section \<open>Construction\<close>

text \<open>
  C10: the constructor treats a falsy value of an optional field as absent: a timeout,
  size, data-bit or stop-bit count that is missing or 0, and an encoding that is missing
  or empty, are replaced by the defaults 200, 1024, 8, 2 and \<open>utf-8\<close>. The constructor is a
  total function of the configuration alone: it reads and issues nothing, and the session
  it returns is closed and owns no subscription.
\<close>

theorem constructor_falsy_defaults:
  "(\<not> truthy_num (timeout opts) \<longrightarrow> o_timeout (options (constructor opts)) = 200) \<and>
   (\<not> truthy_num (size_f opts) \<longrightarrow> s_size (constructor opts) = 1024) \<and>
   (\<not> truthy_str (encoding opts) \<longrightarrow> s_encoding (constructor opts) = ''utf-8'') \<and>
   (\<not> truthy_num (dataBits opts) \<longrightarrow> o_dataBits (options (constructor opts)) = 8) \<and>
   (\<not> truthy_num (stopBits opts) \<longrightarrow> o_stopBits (options (constructor opts)) = 2) \<and>
   \<not> isOpen (constructor opts) \<and> unListen (constructor opts) = None"
  by (auto simp: constructor_def truthy_num_def truthy_str_def or_num_def or_str_def
        split: option.splits)

theorem constructor_falsy_defaults_witness:
  "timeout com3_falsy = Some 0 \<and> size_f com3_falsy = Some 0 \<and> encoding com3_falsy = Some [] \<and>
   o_timeout (options (constructor com3_falsy)) = 200 \<and>
   s_size (constructor com3_falsy) = 1024 \<and>
   s_encoding (constructor com3_falsy) = ''utf-8''"
  using constructor_falsy_defaults [of com3_falsy]
  by (simp add: com3_falsy_def com3_def truthy_num_def truthy_str_def)

section \<open>Closing an open session\<close>

text \<open>
  C3: for every open session, \<open>close\<close> issues its calls in one fixed order: the
  \<open>cancel_read\<close> command, then the \<open>close\<close> command, then the unlisten call of
  \<open>cancelListen\<close> (when the session owns a subscription). Whatever the collaborators
  answer, the calls issued are an initial part of that sequence; \<open>isOpen\<close> is false
  afterwards only when the whole sequence was issued and the call resolved; and when every
  call succeeds the session ends closed, without subscription, with the answer of the
  \<open>close\<close> command as result.
\<close>

theorem close_order:
  assumes "isOpen s"
  shows "(\<exists>n. trace (snd (snd (close E s w))) = trace w @ take n (close_sequence s)) \<and>
         (\<not> isOpen (fst (snd (close E s w))) \<longrightarrow>
            trace (snd (snd (close E s w))) = trace w @ close_sequence s \<and>
            (\<exists>r. fst (close E s w) = Inr r)) \<and>
         (invoke_reply E (trace w) (CancelRead (o_path (options s))) = Inr a \<and>
          invoke_reply E (trace w @ [Invoke (CancelRead (o_path (options s)))])
            (Close (o_path (options s))) = Inr b \<and>
          (\<forall>i. unListen s = Some i \<longrightarrow>
             unlisten_reply E (trace w @ take 2 (close_sequence s)) i = None) \<longrightarrow>
          close E s w =
            (Inr b, s\<lparr>unListen := None, isOpen := False\<rparr>,
             w\<lparr>trace := trace w @ close_sequence s,
               subs := (case unListen s of None \<Rightarrow> subs w
                        | Some i \<Rightarrow> filter (\<lambda>l. l_id l \<noteq> i) (subs w))\<rparr>))"
  using close_trace_prefix [OF assms, of E w] close_done [OF assms, of E w]
    close_success [OF assms, of E w a b]
  by blast

theorem close_order_witness:
  "isOpen (fst opened) \<and>
   close env_ok (fst opened) (snd opened) =
     (Inr Undefined, (fst opened)\<lparr>unListen := None, isOpen := False\<rparr>,
      (snd opened)
        \<lparr>trace := trace (snd opened) @
           [Invoke (CancelRead (Some ''COM3'')), Invoke (Close (Some ''COM3'')), Unlisten 0],
         subs := []\<rparr>)"
  using close_order [of "fst opened" env_ok "snd opened" Undefined Undefined]
  by (simp add: opened_eq close_sequence_def env_ok_def)

text \<open>
  C5: for every open session, when the \<open>cancel_read\<close> command or the \<open>close\<close> command
  fails, \<open>close\<close> rejects with that failure and the session is exactly as before:
  \<open>isOpen\<close> is still true, the registrations of the event feed are untouched and no
  unlisten call was made.
\<close>

theorem close_failure_keeps_state:
  assumes "isOpen s"
    and "invoke_reply E (trace w) (CancelRead (o_path (options s))) = Inl e \<or>
         (invoke_reply E (trace w) (CancelRead (o_path (options s))) = Inr a \<and>
          invoke_reply E (trace w @ [Invoke (CancelRead (o_path (options s)))])
            (Close (o_path (options s))) = Inl e)"
  shows "fst (close E s w) = Inl e \<and> fst (snd (close E s w)) = s \<and>
         isOpen (fst (snd (close E s w))) \<and>
         subs (snd (snd (close E s w))) = subs w \<and>
         (\<forall>i. Unlisten i \<notin>
            set (drop (length (trace w)) (trace (snd (snd (close E s w))))))"
  using assms
  by (auto simp: close_cancelRead_fails close_close_fails)

theorem close_failure_keeps_state_witness:
  "isOpen (fst opened) \<and>
   close env_close_fails (fst opened) (snd opened) =
     (Inl (Obj 1 ''busy''), fst opened,
      (snd opened)\<lparr>trace := trace (snd opened) @
         [Invoke (CancelRead (Some ''COM3'')), Invoke (Close (Some ''COM3''))]\<rparr>)"
  using close_failure_keeps_state
    [of "fst opened" env_close_fails "snd opened" "Obj 1 ''busy''" Undefined]
  by (simp add: opened_eq env_close_fails_def env_ok_def close_close_fails)

section \<open>Opening without a path or a baud rate\<close>

text \<open>
  C6: for every session whose path is empty or missing, or whose baud rate is missing (or
  0), \<open>open\<close> rejects with the local message, issues no call and changes nothing. Such a
  session is closed whenever it was built by the constructor and driven through the
  methods of the class, so it is closed afterwards.
\<close>

theorem open_validation:
  assumes "\<not> truthy_str (o_path (options s)) \<or> \<not> truthy_num (o_baudRate (options s))"
  shows "open E s w =
           (Inl (Str (if \<not> truthy_str (o_path (options s)) then ''Path cannot be empty!''
                      else ''Baudrate cannot be empty!'')), s, w) \<and>
         (run E0 xs (constructor opts, w0) = (s, w) \<longrightarrow> \<not> isOpen s)"
proof -
  have "run E0 xs (constructor opts, w0) = (s, w) \<Longrightarrow> \<not> isOpen s"
  proof -
    assume "run E0 xs (constructor opts, w0) = (s, w)"
    with reachable_valid [of E0 xs opts w0] have "valid_when_open s" by simp
    with assms show "\<not> isOpen s" by (auto simp: valid_when_open_def)
  qed
  with assms show ?thesis by (auto simp: open_def)
qed

theorem open_validation_witness:
  "\<not> truthy_num (o_baudRate (options (fst unset_baud))) \<and>
   open env_ok (fst unset_baud) (snd unset_baud) =
     (Inl (Str ''Baudrate cannot be empty!''), fst unset_baud, snd unset_baud) \<and>
   \<not> isOpen (fst unset_baud)"
  using open_validation [of "fst unset_baud" env_ok "snd unset_baud" env_ok
      "[DoOpen, DoSetBaudRate None]" com3 world0]
  by (simp add: unset_baud_eq truthy_num_def truthy_str_def)

section \<open>Changing the baud rate of an open session\<close>

text \<open>
  C7: for every open session and every baud rate \<open>v\<close> that is set (not 0), a
  \<open>change({baudRate: v})\<close> that resolves has run \<open>close\<close>, then the assignment, then
  \<open>open\<close>, each on the state the step before left: the session is open afterwards with
  baud rate \<open>v\<close>, and the calls issued are those of a complete \<open>close\<close> followed by the
  \<open>open\<close> command carrying \<open>v\<close>. When \<open>close\<close> succeeds and the reopening fails,
  \<open>change\<close> rejects with the failure of \<open>open\<close> and the session ends closed.
\<close>

theorem change_baudRate_open:
  assumes "isOpen s" and "v \<noteq> 0"
  shows "(change E None (Some v) s w = (Inr r, s', w') \<longrightarrow>
            (\<exists>u s1 w1 r'. close E s w = (Inr u, s1, w1) \<and>
               open E (set_baudRate (Some v) s1) w1 = (Inr r', s', w')) \<and>
            isOpen s' \<and> o_baudRate (options s') = Some v \<and>
            trace w' = trace w @ close_sequence s @
              [Invoke (Open (o_path (options s)) (Some v) (o_dataBits (options s))
                 (o_flowControl (options s)) (o_parity (options s)) (o_stopBits (options s))
                 (o_timeout (options s)))]) \<and>
         (close E2 s w = (Inr u2, s2, w2) \<and>
          open E2 (set_baudRate (Some v) s2) w2 = (Inl e, s3, w3) \<longrightarrow>
            change E2 None (Some v) s w = (Inl e, s3, w3) \<and> \<not> isOpen s3)"
proof (intro conjI impI)
  assume c: "change E None (Some v) s w = (Inr r, s', w')"
  from change_success [OF assms c]
  show "\<exists>u s1 w1 r'. close E s w = (Inr u, s1, w1) \<and>
               open E (set_baudRate (Some v) s1) w1 = (Inr r', s', w')"
    and "isOpen s'" and "o_baudRate (options s') = Some v"
    and "trace w' = trace w @ close_sequence s @
              [Invoke (Open (o_path (options s)) (Some v) (o_dataBits (options s))
                 (o_flowControl (options s)) (o_parity (options s)) (o_stopBits (options s))
                 (o_timeout (options s)))]"
    by blast+
next
  assume f: "close E2 s w = (Inr u2, s2, w2) \<and>
          open E2 (set_baudRate (Some v) s2) w2 = (Inl e, s3, w3)"
  then have "change E2 None (Some v) s w = (Inl e, s3, w3) \<and> \<not> isOpen s3"
    using change_reopen_fails [OF assms] by blast
  then show "change E2 None (Some v) s w = (Inl e, s3, w3)" and "\<not> isOpen s3" by simp_all
qed

theorem change_baudRate_open_witness:
  "isOpen (fst opened) \<and> (115200::int) \<noteq> 0 \<and>
   change env_ok None (Some 115200) (fst opened) (snd opened) =
     (Inr Undefined,
      set_baudRate (Some 115200) ((fst opened)\<lparr>unListen := None\<rparr>),
      (snd opened)
        \<lparr>trace := trace (snd opened) @
           [Invoke (CancelRead (Some ''COM3'')), Invoke (Close (Some ''COM3'')), Unlisten 0,
            Invoke (Open (Some ''COM3'') (Some 115200) 8 None None 2 200)],
         subs := []\<rparr>) \<and>
   change env_open_fails_second None (Some 115200) (fst opened) (snd opened) =
     (Inl (Obj 2 ''no device''),
      set_baudRate (Some 115200) ((fst opened)\<lparr>unListen := None, isOpen := False\<rparr>),
      (snd opened)
        \<lparr>trace := trace (snd opened) @
           [Invoke (CancelRead (Some ''COM3'')), Invoke (Close (Some ''COM3'')), Unlisten 0,
            Invoke (Open (Some ''COM3'') (Some 115200) 8 None None 2 200)],
         subs := []\<rparr>)"
  using change_baudRate_open [of "fst opened" 115200 env_ok "snd opened" Undefined
      "set_baudRate (Some 115200) ((fst opened)\<lparr>unListen := None\<rparr>)"
      "(snd opened)
        \<lparr>trace := trace (snd opened) @
           [Invoke (CancelRead (Some ''COM3'')), Invoke (Close (Some ''COM3'')), Unlisten 0,
            Invoke (Open (Some ''COM3'') (Some 115200) 8 None None 2 200)],
         subs := []\<rparr>"
      env_open_fails_second]
  by (simp add: opened_eq change_def close_def cancelRead_def cancelListen_def
      call_unlisten_def invoke_def open_def set_baudRate_def set_path_def env_ok_def
      env_open_fails_second_def truthy_str_def truthy_num_def Let_def)

section \<open>One subscription per session\<close>

text \<open>
  C8: a fresh session owns at most one registration of the event feed, namely the one its
  \<open>unListen\<close> field names, and every method of the class (and every event delivery)
  keeps it so. In particular a \<open>listen\<close> that resolves on a session that owns a
  subscription has called its unlisten function before registering, and leaves exactly the
  new registration; a \<open>cancelListen\<close> that resolves has released the subscription the
  session owned, and calling it again does nothing.
\<close>

theorem single_subscription:
  "one_subscription (constructor opts) world0 \<and>
   (one_subscription s w \<longrightarrow>
      one_subscription (fst (step E x (s, w))) (snd (step E x (s, w)))) \<and>
   (one_subscription s w \<and> unListen s = Some i \<and> listen E fn d s w = (Inr r, s1, w1) \<longrightarrow>
      trace w1 = trace w @
        [Unlisten i, Listen (''plugin-serialport-read-'' @ str_of_path (o_path (options s)))] \<and>
      unListen s1 = Some (next_sub w) \<and> map l_id (subs w1) = [next_sub w]) \<and>
   (cancelListen E s w = (Inr r2, s2, w2) \<longrightarrow>
      unListen s2 = None \<and> cancelListen E2 s2 w3 = (Inr Undefined, s2, w3) \<and>
      (\<forall>j. unListen s = Some j \<longrightarrow>
         trace w2 = trace w @ [Unlisten j] \<and> j \<notin> l_id ` set (subs w2)))"
proof (intro conjI impI)
  show "one_subscription (constructor opts) world0"
    by (simp add: one_subscription_def constructor_def world0_def)
next
  assume "one_subscription s w"
  then show "one_subscription (fst (step E x (s, w))) (snd (step E x (s, w)))"
    using step_sub [of "(s, w)" E x] by simp
next
  assume a: "one_subscription s w \<and> unListen s = Some i \<and> listen E fn d s w = (Inr r, s1, w1)"
  then have "list_all (\<lambda>l. i = l_id l) (subs w)"
    by (auto simp: one_subscription_def)
  then have f: "filter (\<lambda>l. l_id l \<noteq> i) (subs w) = []"
    by (rule filter_owned')
  from a listen_replaces [of s i E fn d w r s1 w1]
  show "trace w1 = trace w @
        [Unlisten i, Listen (''plugin-serialport-read-'' @ str_of_path (o_path (options s)))]"
    and "unListen s1 = Some (next_sub w)" and "map l_id (subs w1) = [next_sub w]"
    by (simp_all add: f)
next
  assume c: "cancelListen E s w = (Inr r2, s2, w2)"
  from cancelListen_released [OF c, of E2 w3]
  show "unListen s2 = None" and "cancelListen E2 s2 w3 = (Inr Undefined, s2, w3)"
    and "\<forall>j. unListen s = Some j \<longrightarrow>
         trace w2 = trace w @ [Unlisten j] \<and> j \<notin> l_id ` set (subs w2)"
    by blast+
qed

theorem single_subscription_witness:
  "one_subscription (fst opened) (snd opened) \<and> unListen (fst opened) = Some 0 \<and>
   one_subscription (fst (step env_ok (DoListen quiet False) opened))
     (snd (step env_ok (DoListen quiet False) opened)) \<and>
   listen env_ok quiet False (fst opened) (snd opened) =
     (Inr Undefined, (fst opened)\<lparr>unListen := Some 1\<rparr>,
      \<lparr>trace = trace (snd opened) @ [Unlisten 0, Listen ''plugin-serialport-read-COM3''],
       subs = [\<lparr>l_id = 1, l_channel = ''plugin-serialport-read-COM3'', l_fn = quiet,
                l_isDecode = False\<rparr>],
       next_sub = 2\<rparr>) \<and>
   cancelListen env_ok (fst opened) (snd opened) =
     (Inr Undefined, (fst opened)\<lparr>unListen := None\<rparr>,
      (snd opened)\<lparr>trace := trace (snd opened) @ [Unlisten 0], subs := []\<rparr>)"
  using single_subscription [of com3 "fst opened" "snd opened" env_ok "DoListen quiet False" 0
      quiet False Undefined "(fst opened)\<lparr>unListen := Some 1\<rparr>"
      "\<lparr>trace = trace (snd opened) @ [Unlisten 0, Listen ''plugin-serialport-read-COM3''],
       subs = [\<lparr>l_id = 1, l_channel = ''plugin-serialport-read-COM3'', l_fn = quiet,
                l_isDecode = False\<rparr>],
       next_sub = 2\<rparr>"
      Undefined "(fst opened)\<lparr>unListen := None\<rparr>"
      "(snd opened)\<lparr>trace := trace (snd opened) @ [Unlisten 0], subs := []\<rparr>"]
  by (simp add: opened_eq one_subscription_def listen_def cancelListen_def call_unlisten_def
      appWindow_listen_def env_ok_def str_of_path_def Let_def)

section \<open>A callback that throws\<close>

text \<open>
  C9: the handler \<open>listen\<close> registers always returns normally and never touches the
  registrations, and so does a delivery to all handlers of a channel. When the callback
  throws on the data it is given, the handler has called it and then reported the error
  with \<open>console.error\<close>, nothing else. What \<open>listen\<close> itself returns does not depend on
  the callback; and after any delivery, a further event on the channel still reaches the
  callback of every registered listener.
\<close>

theorem callback_failure_contained:
  "fst (handler E s l p w) = Inr () \<and> subs (snd (handler E s l p w)) = subs w \<and>
   fst (emit E s ch p w) = Inr () \<and> subs (snd (emit E s ch p w)) = subs w \<and>
   (callback_argument E s l p = Some d \<and> l_fn l d = Some e \<longrightarrow>
      handler E s l p w =
        (Inr (), w\<lparr>trace := trace w @ [Callback (l_id l) d, ConsoleError e]\<rparr>)) \<and>
   fst (listen E fn dec s w) = fst (listen E fn2 dec s w) \<and>
   (l \<in> set (subs w) \<and> l_channel l = ch \<and> callback_argument E s l p2 = Some d2 \<longrightarrow>
      Callback (l_id l) d2 \<in>
        set (drop (length (trace (snd (emit E s ch p w))))
               (trace (snd (emit E s ch p2 (snd (emit E s ch p w)))))))"
  using handler_Inr [of E s l p w] handler_subs [of E s l p w]
    deliver_Inr [of E s "filter (\<lambda>l. l_channel l = ch) (subs w)" p w]
    deliver_subs [of E s "filter (\<lambda>l. l_channel l = ch) (subs w)" p w]
    handler_throwing [of E s l p d e w] listen_ignores_fn [of E fn dec s w fn2]
    emit_again [of l w ch E s p2 d2 p]
  by (simp add: emit_def)

theorem callback_failure_contained_witness:
  "hd (subs (snd opened)) \<in> set (subs (snd opened)) \<and>
   callback_argument env_ok (fst opened) (hd (subs (snd opened))) hello = Some (Text ''hello'') \<and>
   l_fn (hd (subs (snd opened))) (Text ''hello'') = Some (Exn ''Error'' ''boom'') \<and>
   emit env_ok (fst opened) ''plugin-serialport-read-COM3'' hello (snd opened) =
     (Inr (), (snd opened)\<lparr>trace := trace (snd opened) @
        [Callback 0 (Text ''hello''), ConsoleError (Exn ''Error'' ''boom'')]\<rparr>) \<and>
   trace (snd (emit env_ok (fst opened) ''plugin-serialport-read-COM3'' hello
     (snd (emit env_ok (fst opened) ''plugin-serialport-read-COM3'' hello (snd opened))))) =
     trace (snd opened) @
        [Callback 0 (Text ''hello''), ConsoleError (Exn ''Error'' ''boom''),
         Callback 0 (Text ''hello''), ConsoleError (Exn ''Error'' ''boom'')]"
  using callback_failure_contained [of env_ok "fst opened" "hd (subs (snd opened))" hello
      "snd opened" "''plugin-serialport-read-COM3''" "Text ''hello''" "Exn ''Error'' ''boom''"
      quiet True quiet hello "Text ''hello''"]
  by (simp add: hello_argument)
     (simp add: opened_eq emit_def handler_def handler_body_def call_fn_def throwing_def
        hello_def env_ok_def Uint8Array_def char_of_def)

end
